theory Spec2Isabelle
  imports Main "HOL-Library.Word"
begin

unbundle bit_operations_syntax

section \<open>The file-backed ring buffer of ringbuf.c\<close>

text \<open>
  The embedding follows \<^verbatim>\<open>src/ringbuf/ringbuf.c\<close>: \<^verbatim>\<open>ringbuf_create\<close>,
  \<^verbatim>\<open>check_header_eq\<close>, \<^verbatim>\<open>check_header_max\<close> and \<^verbatim>\<open>ringbuf_load\<close>. The C types are those
  of an LP64 host: \<^verbatim>\<open>unsigned\<close> and \<^verbatim>\<open>uint32_t\<close> are 32 bits wide, \<^verbatim>\<open>size_t\<close>, \<^verbatim>\<open>ssize_t\<close>
  and \<^verbatim>\<open>off_t\<close> are 64 bits wide. The messages printed on stderr are not modelled.
\<close>

subsection \<open>Machine types\<close>

type_synonym byte = "8 word"
type_synonym uint32_t = "32 word"
type_synonym unsigned = "32 word"
type_synonym size_t = "64 word"
type_synonym off_t = "64 word"

subsection \<open>The header struct and its layout\<close>

text \<open>
  Modelled from the spec: \<^verbatim>\<open>struct ringbuf\<close> is declared in \<^verbatim>\<open>ringbuf.h\<close>, which is
  not among the sources. The spec's on-disk layout gives it six 32-bit fields in this
  order, in native byte order (little-endian here), followed by the data area, so that
  \<^verbatim>\<open>sizeof(struct ringbuf)\<close> is 24.
\<close>

record ringbuf =
  nb_words :: uint32_t
  mmapped_size :: uint32_t
  prod_head :: uint32_t
  prod_tail :: uint32_t
  cons_head :: uint32_t
  cons_tail :: uint32_t

definition sizeof_rb :: nat where
  "sizeof_rb = 24"

definition bytes_of_u32 :: "uint32_t \<Rightarrow> byte list" where
  "bytes_of_u32 v = [ucast v, ucast (drop_bit 8 v), ucast (drop_bit 16 v), ucast (drop_bit 24 v)]"

fun u32_of_bytes :: "byte list \<Rightarrow> uint32_t" where
  "u32_of_bytes (b0 # b1 # b2 # b3 # _) =
     ucast b0 OR push_bit 8 (ucast b1) OR push_bit 16 (ucast b2) OR push_bit 24 (ucast b3)"
| "u32_of_bytes _ = 0"

definition bytes_of_rb :: "ringbuf \<Rightarrow> byte list" where
  "bytes_of_rb rb =
     bytes_of_u32 (nb_words rb) @ bytes_of_u32 (mmapped_size rb) @
     bytes_of_u32 (prod_head rb) @ bytes_of_u32 (prod_tail rb) @
     bytes_of_u32 (cons_head rb) @ bytes_of_u32 (cons_tail rb)"

text \<open>
  Reading the struct at the start of a mapped file. A read that reaches past the end of
  the file has no value (the access faults).
\<close>

definition rb_of_bytes :: "byte list \<Rightarrow> ringbuf option" where
  "rb_of_bytes bs =
     (if length bs < sizeof_rb then None
      else Some \<lparr>nb_words = u32_of_bytes bs,
                 mmapped_size = u32_of_bytes (drop 4 bs),
                 prod_head = u32_of_bytes (drop 8 bs),
                 prod_tail = u32_of_bytes (drop 12 bs),
                 cons_head = u32_of_bytes (drop 16 bs),
                 cons_tail = u32_of_bytes (drop 20 bs)\<rparr>)"

text \<open>Storing a 32-bit value at a byte offset of a mapped file.\<close>

definition poke_u32 :: "byte list \<Rightarrow> nat \<Rightarrow> uint32_t \<Rightarrow> byte list" where
  "poke_u32 bs off v = take off bs @ bytes_of_u32 v @ drop (off + 4) bs"

definition mmapped_size_offset :: nat where
  "mmapped_size_offset = 4"

subsection \<open>The operating system as the code sees it\<close>

text \<open>
  The file system maps a path to the bytes of the regular file there. A descriptor is
  modelled by the path it was opened on: neither function renames or unlinks a path while
  it holds a descriptor on it, and no other process runs in between. The list of mappings
  holds the regions of the calling process, and the trace the system calls made, oldest
  first.
\<close>

datatype syscall = Unlink | Open | Ftruncate | Write | Close | Lseek | Mmap | Munmap

datatype errno = ENOENT | EEXIST | EBADF | EOTHER

record mapping =
  m_file :: string
  m_length :: nat

record world =
  fs :: "string \<Rightarrow> byte list option"
  mappings :: "mapping list"
  trace :: "syscall list"

text \<open>
  What the state above does not decide (permissions, a full disk, an interrupted call,
  exhausted address space) is decided by the environment: one flag per system call, the
  number of bytes a write transfers, and the indeterminate content of the uninitialised
  \<^verbatim>\<open>mmapped_size\<close> field of the struct on the stack of \<^verbatim>\<open>ringbuf_create\<close>.
\<close>

record env =
  unlink_denied :: bool
  open_denied :: bool
  ftruncate_fails :: bool
  write_count :: "nat option"
  close_fails :: bool
  lseek_fails :: bool
  mmap_fails :: bool
  stack_junk :: uint32_t

definition logged :: "syscall \<Rightarrow> world \<Rightarrow> world" where
  "logged c w = w\<lparr>trace := trace w @ [c]\<rparr>"

definition sys_unlink :: "env \<Rightarrow> string \<Rightarrow> world \<Rightarrow> (errno + unit) \<times> world" where
  "sys_unlink e fname w =
     (case fs w fname of
        None \<Rightarrow> (Inl ENOENT, logged Unlink w)
      | Some _ \<Rightarrow>
          if unlink_denied e then (Inl EOTHER, logged Unlink w)
          else (Inr (), logged Unlink (w\<lparr>fs := (fs w)(fname := None)\<rparr>)))"

text \<open>\<^verbatim>\<open>open(fname, O_RDWR|O_CREAT|O_EXCL, ...)\<close>: fails when the path exists.\<close>

definition sys_open_creat_excl :: "env \<Rightarrow> string \<Rightarrow> world \<Rightarrow> (errno + string) \<times> world" where
  "sys_open_creat_excl e fname w =
     (case fs w fname of
        Some _ \<Rightarrow> (Inl EEXIST, logged Open w)
      | None \<Rightarrow>
          if open_denied e then (Inl EOTHER, logged Open w)
          else (Inr fname, logged Open (w\<lparr>fs := (fs w)(fname \<mapsto> [])\<rparr>)))"

text \<open>\<^verbatim>\<open>open(fname, O_RDWR, ...)\<close>: fails when the path does not exist.\<close>

definition sys_open_rdwr :: "env \<Rightarrow> string \<Rightarrow> world \<Rightarrow> (errno + string) \<times> world" where
  "sys_open_rdwr e fname w =
     (case fs w fname of
        None \<Rightarrow> (Inl ENOENT, logged Open w)
      | Some _ \<Rightarrow>
          if open_denied e then (Inl EOTHER, logged Open w)
          else (Inr fname, logged Open w))"

text \<open>\<^verbatim>\<open>ftruncate\<close> cuts the file or extends it with zero bytes.\<close>

definition sys_ftruncate :: "env \<Rightarrow> string \<Rightarrow> nat \<Rightarrow> world \<Rightarrow> (errno + unit) \<times> world" where
  "sys_ftruncate e fd len w =
     (case fs w fd of
        None \<Rightarrow> (Inl EBADF, logged Ftruncate w)
      | Some c \<Rightarrow>
          if ftruncate_fails e then (Inl EOTHER, logged Ftruncate w)
          else (Inr (),
                logged Ftruncate
                  (w\<lparr>fs := (fs w)(fd \<mapsto> take len c @ replicate (len - length c) 0)\<rparr>)))"

text \<open>
  \<^verbatim>\<open>write\<close> at file offset 0, where the descriptor of \<^verbatim>\<open>ringbuf_create\<close> stands when
  it writes. It transfers a prefix of the buffer and returns its length, or fails.
\<close>

definition sys_write :: "env \<Rightarrow> string \<Rightarrow> byte list \<Rightarrow> world \<Rightarrow> (errno + nat) \<times> world" where
  "sys_write e fd buf w =
     (case fs w fd of
        None \<Rightarrow> (Inl EBADF, logged Write w)
      | Some c \<Rightarrow>
          (case write_count e of
             None \<Rightarrow> (Inl EOTHER, logged Write w)
           | Some n \<Rightarrow>
               (let k = min n (length buf)
                in (Inr k, logged Write (w\<lparr>fs := (fs w)(fd \<mapsto> take k buf @ drop k c)\<rparr>)))))"

definition sys_close :: "env \<Rightarrow> string \<Rightarrow> world \<Rightarrow> (errno + unit) \<times> world" where
  "sys_close e fd w = (if close_fails e then (Inl EOTHER, logged Close w) else (Inr (), logged Close w))"

text \<open>\<^verbatim>\<open>lseek(fd, 0, SEEK_END)\<close> returns the length of the file as an \<^verbatim>\<open>off_t\<close>.\<close>

definition sys_lseek_end :: "env \<Rightarrow> string \<Rightarrow> world \<Rightarrow> (errno + off_t) \<times> world" where
  "sys_lseek_end e fd w =
     (case fs w fd of
        None \<Rightarrow> (Inl EBADF, logged Lseek w)
      | Some c \<Rightarrow>
          if lseek_fails e then (Inl EOTHER, logged Lseek w)
          else (Inr (of_nat (length c)), logged Lseek w))"

text \<open>
  \<^verbatim>\<open>mmap(NULL, len, PROT_READ|PROT_WRITE, MAP_SHARED, fd, 0)\<close>: the region is the file
  itself, so loads read the file's bytes and stores change them.
\<close>

definition sys_mmap :: "env \<Rightarrow> string \<Rightarrow> nat \<Rightarrow> world \<Rightarrow> (errno + mapping) \<times> world" where
  "sys_mmap e fd len w =
     (if mmap_fails e then (Inl EOTHER, logged Mmap w)
      else (let m = \<lparr>m_file = fd, m_length = len\<rparr>
            in (Inr m, logged Mmap (w\<lparr>mappings := m # mappings w\<rparr>))))"

definition sys_munmap :: "mapping \<Rightarrow> world \<Rightarrow> world" where
  "sys_munmap m w = logged Munmap (w\<lparr>mappings := remove1 m (mappings w)\<rparr>)"

subsection \<open>ringbuf\_create\<close>

text \<open>
  \<^verbatim>\<open>size_t file_length = sizeof(rb) + tot_words*sizeof(uint32_t)\<close>, computed in 64-bit
  \<^verbatim>\<open>size_t\<close> arithmetic.
\<close>

definition create_file_length :: "uint32_t \<Rightarrow> size_t" where
  "create_file_length tot_words = of_nat sizeof_rb + ucast tot_words * 4"

text \<open>The struct on the stack after lines 48 to 50; \<^verbatim>\<open>mmapped_size\<close> is never assigned.\<close>

definition create_header :: "env \<Rightarrow> uint32_t \<Rightarrow> ringbuf" where
  "create_header e tot_words =
     \<lparr>nb_words = tot_words, mmapped_size = stack_junk e,
      prod_head = 0, prod_tail = 0, cons_head = 0, cons_tail = 0\<rparr>"

text \<open>The label \<^verbatim>\<open>err1\<close>: close the descriptor, ignore what close returns.\<close>

definition create_err1 :: "env \<Rightarrow> string \<Rightarrow> int \<Rightarrow> world \<Rightarrow> int \<times> world" where
  "create_err1 e fd ret w = (ret, snd (sys_close e fd w))"

text \<open>
  Lines 25 to 71. The result of the unlink is only reported; a failed open returns -1
  at \<^verbatim>\<open>err0\<close>; a failed ftruncate, a failed write and a short write close the descriptor
  at \<^verbatim>\<open>err1\<close> and return -1; otherwise \<^verbatim>\<open>ret\<close> is 0 when \<^verbatim>\<open>err1\<close> is reached.
\<close>

definition ringbuf_create :: "env \<Rightarrow> string \<Rightarrow> uint32_t \<Rightarrow> world \<Rightarrow> int \<times> world" where
  "ringbuf_create e fname tot_words w0 =
     (let w1 = snd (sys_unlink e fname w0) in
      case sys_open_creat_excl e fname w1 of
        (Inl _, w2) \<Rightarrow> (- 1, w2)
      | (Inr fd, w2) \<Rightarrow>
          (let file_length = create_file_length tot_words in
           case sys_ftruncate e fd (unat file_length) w2 of
             (Inl _, w3) \<Rightarrow> create_err1 e fd (- 1) w3
           | (Inr _, w3) \<Rightarrow>
               (let rb = create_header e tot_words in
                case sys_write e fd (bytes_of_rb rb) w3 of
                  (Inl _, w4) \<Rightarrow> create_err1 e fd (- 1) w4
                | (Inr n, w4) \<Rightarrow>
                    if n < sizeof_rb then create_err1 e fd (- 1) w4
                    else create_err1 e fd 0 w4)))"

subsection \<open>ringbuf\_load\<close>

definition check_header_eq :: "unsigned \<Rightarrow> unsigned \<Rightarrow> bool" where
  "check_header_eq expected actual = (expected = actual)"

definition check_header_max :: "unsigned \<Rightarrow> unsigned \<Rightarrow> bool" where
  "check_header_max max_v actual = (actual < max_v)"

text \<open>
  The first argument of the size check, \<^verbatim>\<open>rb->nb_words*sizeof(uint32_t) + sizeof(*rb)\<close>,
  is a \<^verbatim>\<open>size_t\<close>; the second, \<^verbatim>\<open>file_length\<close>, is an \<^verbatim>\<open>off_t\<close>. Both are converted
  to the \<^verbatim>\<open>unsigned\<close> parameters of \<^verbatim>\<open>check_header_eq\<close>.
\<close>

definition expected_size :: "ringbuf \<Rightarrow> size_t" where
  "expected_size rb = ucast (nb_words rb) * 4 + of_nat sizeof_rb"

definition sanity_checks :: "ringbuf \<Rightarrow> off_t \<Rightarrow> bool" where
  "sanity_checks rb file_length =
     (check_header_eq (ucast (expected_size rb)) (ucast file_length) \<and>
      check_header_max (nb_words rb) (prod_head rb) \<and>
      check_header_max (nb_words rb) (prod_tail rb) \<and>
      check_header_max (nb_words rb) (cons_head rb) \<and>
      check_header_max (nb_words rb) (cons_tail rb))"

text \<open>
  What a call does: it returns a pointer (\<open>None\<close> is \<^verbatim>\<open>NULL\<close>), or it faults on an
  invalid access and never returns.
\<close>

datatype outcome = Returned "mapping option" | Fault

text \<open>The label \<^verbatim>\<open>err1\<close> of \<^verbatim>\<open>ringbuf_load\<close>.\<close>

definition load_err1 :: "env \<Rightarrow> string \<Rightarrow> mapping option \<Rightarrow> world \<Rightarrow> outcome \<times> world" where
  "load_err1 e fd rb w = (Returned rb, snd (sys_close e fd w))"

text \<open>
  Line 130, \<^verbatim>\<open>rb->mmapped_size = file_length\<close>, for the pointer \<open>rb\<close> as it stands
  after the sanity checks: a store through \<^verbatim>\<open>NULL\<close> faults, a store through the mapping
  changes the file.
\<close>

definition store_mmapped_size :: "mapping option \<Rightarrow> off_t \<Rightarrow> world \<Rightarrow> world option" where
  "store_mmapped_size rb file_length w =
     (case rb of
        None \<Rightarrow> None
      | Some m \<Rightarrow>
          (case fs w (m_file m) of
             None \<Rightarrow> None
           | Some c \<Rightarrow>
               if length c < sizeof_rb then None
               else Some (w\<lparr>fs := (fs w)(m_file m \<mapsto>
                                  poke_u32 c mmapped_size_offset (ucast file_length))\<rparr>)))"

text \<open>
  Lines 91 to 140. A failed open returns \<^verbatim>\<open>NULL\<close> at \<^verbatim>\<open>err0\<close>; a failed lseek, a
  file no longer than the header and a failed mmap leave through \<^verbatim>\<open>err1\<close> with
  \<^verbatim>\<open>rb\<close> still \<^verbatim>\<open>NULL\<close>. The block of lines 119 to 128 unmaps and clears \<^verbatim>\<open>rb\<close> when a
  check fails, and has no jump: line 130 runs after it in both cases.
\<close>

definition ringbuf_load :: "env \<Rightarrow> string \<Rightarrow> world \<Rightarrow> outcome \<times> world" where
  "ringbuf_load e fname w0 =
     (case sys_open_rdwr e fname w0 of
        (Inl _, w1) \<Rightarrow> (Returned None, w1)
      | (Inr fd, w1) \<Rightarrow>
          (case sys_lseek_end e fd w1 of
             (Inl _, w2) \<Rightarrow> load_err1 e fd None w2
           | (Inr file_length, w2) \<Rightarrow>
               if file_length = - 1 then load_err1 e fd None w2
               else if unat file_length \<le> sizeof_rb then load_err1 e fd None w2
               else
                 (case sys_mmap e fd (unat file_length) w2 of
                    (Inl _, w3) \<Rightarrow> load_err1 e fd None w3
                  | (Inr m, w3) \<Rightarrow>
                      (case Option.bind (fs w3 (m_file m)) rb_of_bytes of
                         None \<Rightarrow> (Fault, w3)
                       | Some header \<Rightarrow>
                           (let (rb, w4) =
                                  (if \<not> sanity_checks header file_length
                                   then (None, sys_munmap m w3)
                                   else (Some m, w3))
                            in case store_mmapped_size rb file_length w4 of
                                 None \<Rightarrow> (Fault, w4)
                               | Some w5 \<Rightarrow> load_err1 e fd rb w5)))))"

subsection \<open>Predicates used to state the properties of create and load\<close>

text \<open>
  After the unlink of line 30 the path is free: there was no file, or the unlink was
  allowed.
\<close>

definition path_free :: "env \<Rightarrow> string \<Rightarrow> world \<Rightarrow> bool" where
  "path_free e fname w = (case fs w fname of None \<Rightarrow> True | Some _ \<Rightarrow> \<not> unlink_denied e)"

text \<open>The bytes of a freshly laid-out buffer file of the given capacity.\<close>

definition fresh_file :: "env \<Rightarrow> uint32_t \<Rightarrow> byte list" where
  "fresh_file e tot_words = bytes_of_rb (create_header e tot_words) @ replicate (unat tot_words * 4) 0"

text \<open>How many bytes of the header the write of line 51 puts into the file.\<close>

definition header_bytes_written :: "env \<Rightarrow> nat" where
  "header_bytes_written e = (case write_count e of None \<Rightarrow> 0 | Some k \<Rightarrow> min k sizeof_rb)"

text \<open>An environment in which every system call succeeds and writes are complete.\<close>

definition env_ok :: env where
  "env_ok = \<lparr>unlink_denied = False, open_denied = False, ftruncate_fails = False,
            write_count = Some 24, close_fails = False, lseek_fails = False,
            mmap_fails = False, stack_junk = 0\<rparr>"

definition no_files :: world where
  "no_files = \<lparr>fs = (\<lambda>_. None), mappings = [], trace = []\<rparr>"

definition one_file :: "string \<Rightarrow> byte list \<Rightarrow> world" where
  "one_file fname c = \<lparr>fs = (\<lambda>_. None)(fname \<mapsto> c), mappings = [], trace = []\<rparr>"

text \<open>
  Three files to attach: one whose header announces two words but which holds one, one of
  the right size whose \<^verbatim>\<open>cons_tail\<close> equals its capacity, and one whose header announces
  one word but which is \<open>2 ^ 32\<close> bytes longer than that.
\<close>

definition short_file :: "byte list" where
  "short_file =
     bytes_of_rb \<lparr>nb_words = 2, mmapped_size = 0, prod_head = 0, prod_tail = 0,
                  cons_head = 0, cons_tail = 0\<rparr> @ replicate 4 0"

definition bad_counter_file :: "byte list" where
  "bad_counter_file =
     bytes_of_rb \<lparr>nb_words = 2, mmapped_size = 0, prod_head = 0, prod_tail = 0,
                  cons_head = 0, cons_tail = 2\<rparr> @ replicate 8 0"

definition huge_file :: "byte list" where
  "huge_file =
     bytes_of_rb \<lparr>nb_words = 1, mmapped_size = 0, prod_head = 0, prod_tail = 0,
                  cons_head = 0, cons_tail = 0\<rparr> @ replicate (2 ^ 32 + 4) 0"


section \<open>The enqueue and dequeue protocol\<close>

text \<open>
  Modelled from the spec: the inline functions \<^verbatim>\<open>ringbuf_nb_entries\<close>,
  \<^verbatim>\<open>ringbuf_nb_free\<close>, \<^verbatim>\<open>ringbuf_enqueue\<close> and \<^verbatim>\<open>ringbuf_dequeue\<close> are defined in
  \<^verbatim>\<open>ringbuf.h\<close>, which is not among the sources; \<^verbatim>\<open>ringbuf.c\<close> only instantiates
  them. The definitions below follow sections 4.1.1 to 4.1.5 of the specification, for one
  process running alone: the compare-and-swap of step 4 compares a counter with the
  snapshot just taken of it and succeeds, and the wait of step 7 reads a counter that
  nobody else advances.
\<close>

text \<open>The attached region: the header and the data area of 32-bit words.\<close>

record rbuf =
  hdr :: ringbuf
  data :: "uint32_t list"

datatype rb_error = NOT_ENOUGH_SPACE | EMPTY

text \<open>Section 4.1.5: \<open>nb_entries(P_t, C_h)\<close> and \<open>nb_free(P_h, C_t)\<close>.\<close>

definition ringbuf_nb_entries :: "ringbuf \<Rightarrow> uint32_t \<Rightarrow> uint32_t \<Rightarrow> int" where
  "ringbuf_nb_entries rb p_t c_h = (uint p_t - uint c_h) mod uint (nb_words rb)"

definition ringbuf_nb_free :: "ringbuf \<Rightarrow> uint32_t \<Rightarrow> uint32_t \<Rightarrow> int" where
  "ringbuf_nb_free rb p_h c_t = (uint c_t - uint p_h - 1) mod uint (nb_words rb)"

text \<open>The wrap sentinel \<^verbatim>\<open>UINT32_MAX\<close>.\<close>

definition wrap_sentinel :: uint32_t where
  "wrap_sentinel = - 1"

text \<open>
  Step 7 of both transactions: spin until the tail counter equals the start of this
  reservation. With no other process the counter read is always the same, so the wait
  returns at once or never; never returning is the value \<open>None\<close>.
\<close>

partial_function (option) await_tail :: "uint32_t \<Rightarrow> uint32_t \<Rightarrow> unit option" where
  "await_tail tail start = (if tail = start then Some () else await_tail tail start)"

declare await_tail.simps [code]

text \<open>Storing consecutive words from an index on.\<close>

fun store_words :: "uint32_t list \<Rightarrow> nat \<Rightarrow> uint32_t list \<Rightarrow> uint32_t list" where
  "store_words d i [] = d"
| "store_words d i (v # vs) = store_words (d[i := v]) (Suc i) vs"

text \<open>Reading one word of the data area; there is no value outside it.\<close>

definition word_at :: "uint32_t list \<Rightarrow> nat \<Rightarrow> uint32_t option" where
  "word_at d i = (if i < length d then Some (d ! i) else None)"

text \<open>
  Steps 4 to 7 of the producer transaction, once the new head is computed: the head is
  swapped, the words are stored, and the tail is advanced after the wait.
\<close>

definition enqueue_publish :: "rbuf \<Rightarrow> nat \<Rightarrow> uint32_t list \<Rightarrow> ((rb_error + unit) \<times> rbuf) option" where
  "enqueue_publish b new_head d =
     (case await_tail (prod_tail (hdr b)) (prod_head (hdr b)) of
        None \<Rightarrow> None
      | Some _ \<Rightarrow>
          Some (Inr (), b\<lparr>hdr := (hdr b)\<lparr>prod_head := of_nat new_head, prod_tail := of_nat new_head\<rparr>,
                          data := d\<rparr>))"

text \<open>
  Section 4.1.3. The result is \<open>None\<close> when the call does not return; otherwise the
  error or success, and the region as the call leaves it.
\<close>

definition ringbuf_enqueue :: "rbuf \<Rightarrow> uint32_t list \<Rightarrow> ((rb_error + unit) \<times> rbuf) option" where
  "ringbuf_enqueue b msg =
     (let n = unat (nb_words (hdr b));
          l = length msg;
          p_h = unat (prod_head (hdr b));
          free = ringbuf_nb_free (hdr b) (prod_head (hdr b)) (cons_tail (hdr b))
      in if free < int l + 1 then Some (Inl NOT_ENOUGH_SPACE, b)
         else if p_h + l + 1 \<le> n
           then enqueue_publish b ((p_h + l + 1) mod n) (store_words (data b) p_h (of_nat l # msg))
         else if int l + 1 \<le> free - (int n - int p_h)
           then enqueue_publish b (l + 1)
                  (store_words ((data b)[p_h := wrap_sentinel]) 0 (of_nat l # msg))
         else Some (Inl NOT_ENOUGH_SPACE, b))"

text \<open>Steps 5 to 7 of the consumer transaction.\<close>

definition dequeue_publish ::
  "rbuf \<Rightarrow> nat \<Rightarrow> uint32_t list \<Rightarrow> ((rb_error + uint32_t list) \<times> rbuf) option" where
  "dequeue_publish b new_head payload =
     (case await_tail (cons_tail (hdr b)) (cons_head (hdr b)) of
        None \<Rightarrow> None
      | Some _ \<Rightarrow>
          Some (Inr payload,
                b\<lparr>hdr := (hdr b)\<lparr>cons_head := of_nat new_head, cons_tail := of_nat new_head\<rparr>\<rparr>))"

text \<open>Section 4.1.4, with a destination large enough for the message.\<close>

definition ringbuf_dequeue :: "rbuf \<Rightarrow> ((rb_error + uint32_t list) \<times> rbuf) option" where
  "ringbuf_dequeue b =
     (let n = unat (nb_words (hdr b));
          c_h = unat (cons_head (hdr b))
      in if cons_head (hdr b) = prod_tail (hdr b) then Some (Inl EMPTY, b)
         else
           (case word_at (data b) c_h of
              None \<Rightarrow> None
            | Some l0 \<Rightarrow>
                if l0 = wrap_sentinel
                then
                  (if prod_tail (hdr b) = 0 then Some (Inl EMPTY, b)
                   else
                     (case word_at (data b) 0 of
                        None \<Rightarrow> None
                      | Some l \<Rightarrow>
                          dequeue_publish b (unat l + 1) (take (unat l) (drop 1 (data b)))))
                else dequeue_publish b ((c_h + unat l0 + 1) mod n)
                       (take (unat l0) (drop (c_h + 1) (data b)))))"

text \<open>Enqueuing a sequence of messages in order, stopping at the first that fails.\<close>

fun enqueue_all :: "rbuf \<Rightarrow> uint32_t list list \<Rightarrow> ((rb_error + unit) \<times> rbuf) option" where
  "enqueue_all b [] = Some (Inr (), b)"
| "enqueue_all b (m # ms) =
     (case ringbuf_enqueue b m of
        Some (Inr _, b') \<Rightarrow> enqueue_all b' ms
      | r \<Rightarrow> r)"

text \<open>Dequeuing a number of times, collecting the messages in the order returned.\<close>

fun dequeue_n :: "nat \<Rightarrow> rbuf \<Rightarrow> ((rb_error + uint32_t list list) \<times> rbuf) option" where
  "dequeue_n 0 b = Some (Inr [], b)"
| "dequeue_n (Suc k) b =
     (case ringbuf_dequeue b of
        None \<Rightarrow> None
      | Some (Inl err, b') \<Rightarrow> Some (Inl err, b')
      | Some (Inr m, b') \<Rightarrow>
          (case dequeue_n k b' of
             Some (Inr ms, b'') \<Rightarrow> Some (Inr (m # ms), b'')
           | r \<Rightarrow> r))"

text \<open>
  The region a process sees after attaching a file that \<^verbatim>\<open>ringbuf_create\<close> has just
  laid out: the capacity in the header, the four counters zero, the data area zero.
\<close>

definition fresh_rbuf :: "uint32_t \<Rightarrow> uint32_t \<Rightarrow> rbuf" where
  "fresh_rbuf tot_words msize =
     \<lparr>hdr = \<lparr>nb_words = tot_words, mmapped_size = msize,
             prod_head = 0, prod_tail = 0, cons_head = 0, cons_tail = 0\<rparr>,
      data = replicate (unat tot_words) 0\<rparr>"

text \<open>The words a message occupies: its length word and its payload.\<close>

definition footprint :: "uint32_t list list \<Rightarrow> nat" where
  "footprint ms = sum_list (map (\<lambda>m. length m + 1) ms)"

definition frames :: "uint32_t list list \<Rightarrow> uint32_t list" where
  "frames ms = concat (map (\<lambda>m. of_nat (length m) # m) ms)"

section \<open>Properties of create and load\<close>

subsection \<open>The byte encoding\<close>

lemma length_bytes_of_u32: "length (bytes_of_u32 v) = 4"
  by (simp add: bytes_of_u32_def)

lemma sizeof_rb_bytes: "length (bytes_of_rb rb) = sizeof_rb"
  by (simp add: bytes_of_rb_def length_bytes_of_u32 sizeof_rb_def)

lemma u32_roundtrip: "u32_of_bytes (bytes_of_u32 v @ rest) = v"
  unfolding bytes_of_u32_def
  apply simp
  apply (rule bit_word_eqI)
  subgoal for n
    apply (cases "n < 8"; cases "n < 16"; cases "n < 24")
    apply (auto simp: bit_simps not_less)
    done
  done

lemma rb_roundtrip: "rb_of_bytes (bytes_of_rb rb @ rest) = Some rb"
proof -
  have l: "length (bytes_of_rb rb) = 24"
    by (simp add: bytes_of_rb_def length_bytes_of_u32)
  show ?thesis
    unfolding rb_of_bytes_def
    by (simp add: l sizeof_rb_def) (simp add: bytes_of_rb_def length_bytes_of_u32 u32_roundtrip)
qed

subsection \<open>What ringbuf\_create does, case by case\<close>

text \<open>The 64-bit sum of line 41 does not wrap: the capacity is below \<open>2 ^ 32\<close>.\<close>

lemma unat_create_file_length: "unat (create_file_length n) = sizeof_rb + unat n * 4"
proof -
  have "unat n < 2 ^ 32" using unsigned_less [of n] by simp
  then have b: "24 + unat n * 4 < (2::nat) ^ 64" by simp
  have "create_file_length n = of_nat (24 + unat n * 4)"
    by (simp add: create_file_length_def sizeof_rb_def)
  then have "unat (create_file_length n) = (24 + unat n * 4) mod 2 ^ 64"
    by (simp only: unat_of_nat len_of_numeral_defs) simp
  then show ?thesis using b
    by (simp add: sizeof_rb_def)
qed

lemma create_unfold:
  "ringbuf_create e fname n w =
     (if \<not> path_free e fname w then (- 1, w\<lparr>trace := trace w @ [Unlink, Open]\<rparr>)
      else if open_denied e
        then (- 1, w\<lparr>fs := (fs w)(fname := None), trace := trace w @ [Unlink, Open]\<rparr>)
      else if ftruncate_fails e
        then (- 1, w\<lparr>fs := (fs w)(fname \<mapsto> []),
                       trace := trace w @ [Unlink, Open, Ftruncate, Close]\<rparr>)
      else case write_count e of
        None \<Rightarrow> (- 1, w\<lparr>fs := (fs w)(fname \<mapsto> replicate (sizeof_rb + unat n * 4) 0),
                         trace := trace w @ [Unlink, Open, Ftruncate, Write, Close]\<rparr>)
      | Some k \<Rightarrow>
          if k < sizeof_rb
          then (- 1, w\<lparr>fs := (fs w)(fname \<mapsto> take k (bytes_of_rb (create_header e n)) @
                                              replicate (sizeof_rb + unat n * 4 - k) 0),
                         trace := trace w @ [Unlink, Open, Ftruncate, Write, Close]\<rparr>)
          else (0, w\<lparr>fs := (fs w)(fname \<mapsto> fresh_file e n),
                      trace := trace w @ [Unlink, Open, Ftruncate, Write, Close]\<rparr>))"
  unfolding ringbuf_create_def path_free_def sys_unlink_def sys_open_creat_excl_def
    sys_ftruncate_def sys_write_def sys_close_def create_err1_def logged_def Let_def
    fresh_file_def
  by (auto simp: unat_create_file_length sizeof_rb_bytes min_def fun_upd_idem
      split: option.splits)

subsection \<open>What ringbuf\_load does, case by case\<close>

lemma unat_off_t_le: "unat (of_nat n :: off_t) \<le> n"
  by (simp add: unat_of_nat)

lemma load_unfold:
  "ringbuf_load e fname w =
     (case fs w fname of
        None \<Rightarrow> (Returned None, w\<lparr>trace := trace w @ [Open]\<rparr>)
      | Some c \<Rightarrow>
          if open_denied e then (Returned None, w\<lparr>trace := trace w @ [Open]\<rparr>)
          else if lseek_fails e \<or> (of_nat (length c) :: off_t) = - 1 \<or>
                  unat (of_nat (length c) :: off_t) \<le> sizeof_rb
            then (Returned None, w\<lparr>trace := trace w @ [Open, Lseek, Close]\<rparr>)
          else if mmap_fails e
            then (Returned None, w\<lparr>trace := trace w @ [Open, Lseek, Mmap, Close]\<rparr>)
          else
            (case rb_of_bytes c of
               None \<Rightarrow>
                 (Fault,
                  w\<lparr>mappings := \<lparr>m_file = fname, m_length = unat (of_nat (length c) :: off_t)\<rparr> #
                                 mappings w,
                    trace := trace w @ [Open, Lseek, Mmap]\<rparr>)
             | Some h \<Rightarrow>
                 if \<not> sanity_checks h (of_nat (length c))
                 then (Fault, w\<lparr>trace := trace w @ [Open, Lseek, Mmap, Munmap]\<rparr>)
                 else (Returned (Some \<lparr>m_file = fname,
                                       m_length = unat (of_nat (length c) :: off_t)\<rparr>),
                       w\<lparr>fs := (fs w)(fname \<mapsto> poke_u32 c mmapped_size_offset
                                                    (ucast (of_nat (length c) :: off_t))),
                         mappings := \<lparr>m_file = fname,
                                      m_length = unat (of_nat (length c) :: off_t)\<rparr> # mappings w,
                         trace := trace w @ [Open, Lseek, Mmap, Close]\<rparr>)))"
proof (cases "fs w fname")
  case None
  then show ?thesis
    by (simp add: ringbuf_load_def sys_open_rdwr_def logged_def)
next
  case (Some c)
  have big: "sizeof_rb \<le> length c" if "\<not> unat (of_nat (length c) :: off_t) \<le> sizeof_rb"
    using that unat_off_t_le [of "length c"] by linarith
  show ?thesis
    using Some big
    unfolding ringbuf_load_def sys_open_rdwr_def sys_lseek_end_def sys_mmap_def sys_munmap_def
      sys_close_def load_err1_def store_mmapped_size_def logged_def Let_def
    by (auto simp: rb_of_bytes_def split: option.splits)
qed

subsection \<open>Properties of ringbuf\_create\<close>

text \<open>
  C3: whenever \<^verbatim>\<open>ringbuf_create\<close> returns 0, the file at the path has exactly
  \<open>sizeof_rb + nb_words * 4\<close> bytes, the header read from it records the requested
  capacity, and the four counters are zero.
\<close>

theorem create_success_layout:
  assumes "ringbuf_create e fname tot_words w = (0, w')"
  shows "\<exists>c h. fs w' fname = Some c \<and> length c = sizeof_rb + unat tot_words * 4 \<and>
           rb_of_bytes c = Some h \<and> nb_words h = tot_words \<and>
           prod_head h = 0 \<and> prod_tail h = 0 \<and> cons_head h = 0 \<and> cons_tail h = 0"
proof -
  from assms have w': "w' = w\<lparr>fs := (fs w)(fname \<mapsto> fresh_file e tot_words),
                     trace := trace w @ [Unlink, Open, Ftruncate, Write, Close]\<rparr>"
    by (simp add: create_unfold split: if_splits option.splits)
  have len: "length (fresh_file e tot_words) = sizeof_rb + unat tot_words * 4"
    by (simp add: fresh_file_def sizeof_rb_bytes)
  have dec: "rb_of_bytes (fresh_file e tot_words) = Some (create_header e tot_words)"
    by (simp add: fresh_file_def rb_roundtrip)
  show ?thesis
    using w' len dec by (simp add: create_header_def)
qed

lemma create_ok_example:
  "ringbuf_create env_ok ''rb'' 8 no_files =
     (0, \<lparr>fs = (\<lambda>_. None)(''rb'' \<mapsto> fresh_file env_ok 8), mappings = [],
          trace = [Unlink, Open, Ftruncate, Write, Close]\<rparr>)"
  by (simp add: create_unfold path_free_def env_ok_def no_files_def sizeof_rb_def)

theorem create_success_layout_witness:
  "\<exists>w' c h. ringbuf_create env_ok ''rb'' 8 no_files = (0, w') \<and>
     fs w' ''rb'' = Some c \<and> length c = 56 \<and> rb_of_bytes c = Some h \<and> nb_words h = 8 \<and>
     prod_head h = 0 \<and> prod_tail h = 0 \<and> cons_head h = 0 \<and> cons_tail h = 0"
  using create_success_layout [OF create_ok_example]
  by (simp add: create_ok_example sizeof_rb_def)

text \<open>
  C8: \<^verbatim>\<open>ringbuf_create\<close> returns 0 or -1. It returns 0 exactly when the new file could be
  created (the path is free after the unlink and the exclusive open is allowed), sized
  (the ftruncate succeeds) and its header fully written (the write transfers the whole
  struct). Then, whatever the path held before, it holds a file of
  \<open>sizeof_rb + nb_words * 4\<close> bytes whose header records the requested capacity and four
  zero counters and whose data area is all zero, and no other path has changed. Any
  failure of those steps gives -1, and no system call is made twice.
\<close>

theorem create_result:
  assumes r: "r = ringbuf_create e fname n w"
  shows "(fst r = 0 \<or> fst r = - 1) \<and>
         ((fst r = 0) =
            (path_free e fname w \<and> \<not> open_denied e \<and> \<not> ftruncate_fails e \<and>
             (\<exists>k. write_count e = Some k \<and> sizeof_rb \<le> k))) \<and>
         (fst r = 0 \<longrightarrow>
            (\<exists>c h. fs (snd r) fname = Some c \<and> length c = sizeof_rb + unat n * 4 \<and>
               rb_of_bytes c = Some h \<and> nb_words h = n \<and>
               prod_head h = 0 \<and> prod_tail h = 0 \<and> cons_head h = 0 \<and> cons_tail h = 0 \<and>
               drop sizeof_rb c = replicate (unat n * 4) 0) \<and>
            (\<forall>p. p \<noteq> fname \<longrightarrow> fs (snd r) p = fs w p)) \<and>
         (\<exists>t. trace (snd r) = trace w @ t \<and> distinct t)"
proof -
  have a: "fst r = 0 \<or> fst r = - 1"
    unfolding r create_unfold by (auto split: option.splits)
  have b: "(fst r = 0) =
            (path_free e fname w \<and> \<not> open_denied e \<and> \<not> ftruncate_fails e \<and>
             (\<exists>k. write_count e = Some k \<and> sizeof_rb \<le> k))"
    unfolding r create_unfold by (auto split: option.splits)
  have c: "fs (snd r) = (fs w)(fname \<mapsto> fresh_file e n)" if "fst r = 0"
    using that unfolding r create_unfold by (auto split: option.splits if_splits)
  have d: "\<exists>t. trace (snd r) = trace w @ t \<and> distinct t"
    unfolding r create_unfold by (auto split: option.splits)
  have e: "(\<exists>c h. fs (snd r) fname = Some c \<and> length c = sizeof_rb + unat n * 4 \<and>
               rb_of_bytes c = Some h \<and> nb_words h = n \<and>
               prod_head h = 0 \<and> prod_tail h = 0 \<and> cons_head h = 0 \<and> cons_tail h = 0 \<and>
               drop sizeof_rb c = replicate (unat n * 4) 0) \<and>
            (\<forall>p. p \<noteq> fname \<longrightarrow> fs (snd r) p = fs w p)" if "fst r = 0"
  proof -
    have len: "length (fresh_file e n) = sizeof_rb + unat n * 4"
      by (simp add: fresh_file_def sizeof_rb_bytes)
    have dec: "rb_of_bytes (fresh_file e n) =
                 Some \<lparr>nb_words = n, mmapped_size = stack_junk e,
                       prod_head = 0, prod_tail = 0, cons_head = 0, cons_tail = 0\<rparr>"
      by (simp add: fresh_file_def rb_roundtrip) (simp add: create_header_def)
    have zero: "drop sizeof_rb (fresh_file e n) = replicate (unat n * 4) 0"
      using sizeof_rb_bytes [of "create_header e n"] by (simp add: fresh_file_def)
    from c [OF that] len dec zero show ?thesis by simp
  qed
  from a b d e show ?thesis by blast
qed

theorem create_result_witness:
  "fst (ringbuf_create env_ok ''rb'' 8 (one_file ''rb'' [1, 2, 3])) = 0 \<and>
   (\<exists>c h. fs (snd (ringbuf_create env_ok ''rb'' 8 (one_file ''rb'' [1, 2, 3]))) ''rb'' = Some c \<and>
      length c = 56 \<and> rb_of_bytes c = Some h \<and> nb_words h = 8 \<and>
      prod_head h = 0 \<and> prod_tail h = 0 \<and> cons_head h = 0 \<and> cons_tail h = 0 \<and>
      drop 24 c = replicate 32 0)"
proof -
  let ?r = "ringbuf_create env_ok ''rb'' 8 (one_file ''rb'' [1, 2, 3])"
  have c: "path_free env_ok ''rb'' (one_file ''rb'' [1, 2, 3]) \<and> \<not> open_denied env_ok \<and>
           \<not> ftruncate_fails env_ok \<and> (\<exists>k. write_count env_ok = Some k \<and> sizeof_rb \<le> k)"
    by (simp add: path_free_def env_ok_def one_file_def sizeof_rb_def)
  note t = create_result [OF refl, of env_ok "''rb''" 8 "one_file ''rb'' [1, 2, 3]"]
  from t c have z: "fst ?r = 0" by blast
  from t z have "\<exists>c h. fs (snd ?r) ''rb'' = Some c \<and> length c = sizeof_rb + unat (8 :: uint32_t) * 4 \<and>
               rb_of_bytes c = Some h \<and> nb_words h = 8 \<and>
               prod_head h = 0 \<and> prod_tail h = 0 \<and> cons_head h = 0 \<and> cons_tail h = 0 \<and>
               drop sizeof_rb c = replicate (unat (8 :: uint32_t) * 4) 0"
    by blast
  with z show ?thesis by (simp add: sizeof_rb_def)
qed

text \<open>
  C9: when the system calls succeed, creating a buffer of capacity 0 returns 0 and leaves
  a file of exactly the header size; attaching that file returns \<^verbatim>\<open>NULL\<close> in every
  environment, because \<^verbatim>\<open>ringbuf_load\<close> rejects every file whose size is not strictly
  greater than the header size.
\<close>

theorem create_zero_words_unattachable:
  assumes "path_free e fname w" and "\<not> open_denied e" and "\<not> ftruncate_fails e"
    and "write_count e = Some k" and "sizeof_rb \<le> k"
  shows "fst (ringbuf_create e fname 0 w) = 0 \<and>
         (\<exists>c. fs (snd (ringbuf_create e fname 0 w)) fname = Some c \<and> length c = sizeof_rb) \<and>
         (\<forall>e'. fst (ringbuf_load e' fname (snd (ringbuf_create e fname 0 w))) = Returned None) \<and>
         (\<forall>e' w' c. fs w' fname = Some c \<and> length c \<le> sizeof_rb \<longrightarrow>
            fst (ringbuf_load e' fname w') = Returned None)"
proof -
  have rej: "fst (ringbuf_load e' fname w') = Returned None"
    if "fs w' fname = Some c" and "length c \<le> sizeof_rb" for e' w' c
  proof -
    have "unat (of_nat (length c) :: off_t) \<le> sizeof_rb"
      using unat_off_t_le [of "length c"] that(2) by linarith
    with that(1) show ?thesis by (simp add: load_unfold)
  qed
  have cr: "ringbuf_create e fname 0 w =
          (0, w\<lparr>fs := (fs w)(fname \<mapsto> fresh_file e 0),
                 trace := trace w @ [Unlink, Open, Ftruncate, Write, Close]\<rparr>)"
    using assms by (simp add: create_unfold)
  have len: "length (fresh_file e 0) = sizeof_rb"
    by (simp add: fresh_file_def sizeof_rb_bytes)
  show ?thesis
    using cr len rej by simp
qed

theorem create_zero_words_unattachable_witness:
  "fst (ringbuf_create env_ok ''rb'' 0 no_files) = 0 \<and>
   (\<exists>c. fs (snd (ringbuf_create env_ok ''rb'' 0 no_files)) ''rb'' = Some c \<and> length c = 24) \<and>
   fst (ringbuf_load env_ok ''rb'' (snd (ringbuf_create env_ok ''rb'' 0 no_files))) = Returned None"
proof -
  have 1: "path_free env_ok ''rb'' no_files" by (simp add: path_free_def no_files_def)
  have 2: "\<not> open_denied env_ok" "\<not> ftruncate_fails env_ok" "write_count env_ok = Some 24"
    by (simp_all add: env_ok_def)
  have 3: "sizeof_rb \<le> 24" by (simp add: sizeof_rb_def)
  from create_zero_words_unattachable [OF 1 2 3] show ?thesis
    by (simp add: sizeof_rb_def)
qed

text \<open>
  C10: \<^verbatim>\<open>ringbuf_create\<close> unlinks before it opens. When the open fails the result is -1
  and the file system is as the unlink left it, with no new file. When the open succeeds
  the original file is already gone and a new file stands at the path; if the call then
  fails, that file is left as the completed steps made it: empty when the sizing failed,
  otherwise zero-filled at full length with fewer than \<open>sizeof_rb\<close> header bytes in it.
\<close>

theorem create_not_atomic:
  assumes r: "r = ringbuf_create e fname n w"
    and w1: "w1 = snd (sys_unlink e fname w)"
    and op: "op = fst (sys_open_creat_excl e fname w1)"
  shows "take 2 (drop (length (trace w)) (trace (snd r))) = [Unlink, Open] \<and>
         (isl op \<longrightarrow> fst r = - 1 \<and> fs (snd r) = fs w1) \<and>
         (\<not> isl op \<longrightarrow> fs w1 fname = None \<and> fs (snd r) fname \<noteq> None) \<and>
         (\<not> isl op \<and> fst r = - 1 \<longrightarrow>
            (if ftruncate_fails e then fs (snd r) fname = Some []
             else header_bytes_written e < sizeof_rb \<and>
                  fs (snd r) fname =
                    Some (take (header_bytes_written e) (bytes_of_rb (create_header e n)) @
                          replicate (sizeof_rb + unat n * 4 - header_bytes_written e) 0)))"
  unfolding r w1 op create_unfold
  unfolding path_free_def sys_unlink_def sys_open_creat_excl_def logged_def
    header_bytes_written_def
  by (auto simp: fun_upd_idem sizeof_rb_def split: option.splits)

theorem create_not_atomic_witness:
  "fs (snd (ringbuf_create (env_ok\<lparr>write_count := Some 4\<rparr>) ''rb'' 1 (one_file ''rb'' [7, 7]))) ''rb'' =
     Some ([1, 0, 0, 0] @ replicate 24 0) \<and>
   fs (snd (ringbuf_create (env_ok\<lparr>open_denied := True\<rparr>) ''rb'' 1 (one_file ''rb'' [7, 7]))) ''rb'' = None"
proof -
  let ?e = "env_ok\<lparr>write_count := Some 4\<rparr>" and ?w = "one_file ''rb'' [7, 7]"
  let ?e' = "env_ok\<lparr>open_denied := True\<rparr>"
  have a: "\<not> isl (fst (sys_open_creat_excl ?e ''rb'' (snd (sys_unlink ?e ''rb'' ?w))))"
    by (simp add: sys_open_creat_excl_def sys_unlink_def logged_def env_ok_def one_file_def)
  have b: "fst (ringbuf_create ?e ''rb'' 1 ?w) = - 1"
    by (simp add: create_unfold path_free_def env_ok_def one_file_def sizeof_rb_def)
  have c: "\<not> ftruncate_fails ?e" "header_bytes_written ?e = 4"
    by (simp_all add: env_ok_def header_bytes_written_def sizeof_rb_def)
  have d: "take 4 (bytes_of_rb (create_header ?e 1)) = [1, 0, 0, 0]"
    by (simp add: bytes_of_rb_def create_header_def bytes_of_u32_def)
  have a': "isl (fst (sys_open_creat_excl ?e' ''rb'' (snd (sys_unlink ?e' ''rb'' ?w))))"
    by (simp add: sys_open_creat_excl_def sys_unlink_def logged_def env_ok_def one_file_def)
  have e: "fs (snd (sys_unlink ?e' ''rb'' ?w)) ''rb'' = None"
    by (simp add: sys_unlink_def logged_def env_ok_def one_file_def)
  from create_not_atomic [where e = ?e and fname = "''rb''" and n = 1 and w = ?w, OF refl refl refl]
    a b c d
  have 1: "fs (snd (ringbuf_create ?e ''rb'' 1 ?w)) ''rb'' = Some ([1, 0, 0, 0] @ replicate 24 0)"
    by (simp add: sizeof_rb_def)
  from create_not_atomic [where e = ?e' and fname = "''rb''" and n = 1 and w = ?w, OF refl refl refl]
    a' e
  have 2: "fs (snd (ringbuf_create ?e' ''rb'' 1 ?w)) ''rb'' = None"
    by simp
  from 1 2 show ?thesis by simp
qed

subsection \<open>Properties of ringbuf\_load\<close>

lemma four_bytes:
  assumes "4 \<le> length bs"
  obtains b0 b1 b2 b3 t where "bs = b0 # b1 # b2 # b3 # (t :: byte list)"
proof -
  from assms have "\<exists>b0 b1 b2 b3 t. bs = b0 # b1 # b2 # b3 # t"
    by (simp add: numeral_eq_Suc Suc_le_length_iff) blast
  with that show thesis by blast
qed

lemma u32_of_bytes_take: "4 \<le> length bs \<Longrightarrow> u32_of_bytes (take 4 bs @ r) = u32_of_bytes bs"
  by (erule four_bytes) simp

lemma length_poke_u32: "off + 4 \<le> length bs \<Longrightarrow> length (poke_u32 bs off v) = length bs"
  by (simp add: poke_u32_def length_bytes_of_u32)

lemma rb_of_bytes_poke:
  assumes "rb_of_bytes c = Some h"
  shows "rb_of_bytes (poke_u32 c mmapped_size_offset v) = Some (h\<lparr>mmapped_size := v\<rparr>)"
proof -
  from assms have len: "24 \<le> length c"
    by (simp add: rb_of_bytes_def sizeof_rb_def split: if_splits)
  have d4: "drop 4 (poke_u32 c 4 v) = bytes_of_u32 v @ drop 8 c"
    using len by (simp add: poke_u32_def)
  have d8: "drop (8 + k) (poke_u32 c 4 v) = drop (8 + k) c" for k
    using len by (simp add: poke_u32_def length_bytes_of_u32 add.commute)
  have d0: "u32_of_bytes (poke_u32 c 4 v) = u32_of_bytes c"
    using len by (simp add: poke_u32_def u32_of_bytes_take)
  have l: "length (poke_u32 c 4 v) = length c"
    using len by (simp add: length_poke_u32)
  show ?thesis
    using assms d0 d4 d8 [of 0] d8 [of 4] d8 [of 8] d8 [of 12] l
    by (auto simp: rb_of_bytes_def mmapped_size_offset_def u32_roundtrip split: if_splits)
qed

lemma sanity_checks_mmapped_size:
  "sanity_checks (h\<lparr>mmapped_size := v\<rparr>) len = sanity_checks h len"
  by (simp add: sanity_checks_def expected_size_def)

lemma drop_header_poke:
  "sizeof_rb \<le> length c \<Longrightarrow> drop sizeof_rb (poke_u32 c mmapped_size_offset v) = drop sizeof_rb c"
  by (simp add: poke_u32_def mmapped_size_offset_def sizeof_rb_def length_bytes_of_u32)

lemma load_success_cases:
  assumes "ringbuf_load e fname w = (Returned (Some m), w')"
  obtains c h where "fs w fname = Some c" and "rb_of_bytes c = Some h"
    and "sanity_checks h (of_nat (length c))"
    and "\<not> open_denied e" and "\<not> lseek_fails e" and "\<not> mmap_fails e"
    and "(of_nat (length c) :: off_t) \<noteq> - 1"
    and "sizeof_rb < unat (of_nat (length c) :: off_t)"
    and "m = \<lparr>m_file = fname, m_length = unat (of_nat (length c) :: off_t)\<rparr>"
    and "w' = w\<lparr>fs := (fs w)(fname \<mapsto> poke_u32 c mmapped_size_offset
                                         (ucast (of_nat (length c) :: off_t))),
                 mappings := m # mappings w,
                 trace := trace w @ [Open, Lseek, Mmap, Close]\<rparr>"
  using assms unfolding load_unfold
  by (auto split: option.splits if_splits)

lemma ucast_off_t_of_nat: "(ucast (of_nat n :: off_t) :: uint32_t) = of_nat n"
  apply (rule bit_word_eqI)
  apply (simp add: bit_simps)
  done


lemma load_outcome_ignores_mmapped_size:
  assumes c: "fs w fname = Some c" and len: "sizeof_rb \<le> length c"
  shows "fst (ringbuf_load e fname (w\<lparr>fs := (fs w)(fname \<mapsto> poke_u32 c mmapped_size_offset v)\<rparr>)) =
         fst (ringbuf_load e fname w)"
proof -
  from len obtain h where h: "rb_of_bytes c = Some h"
    by (auto simp: rb_of_bytes_def)
  have l: "length (poke_u32 c mmapped_size_offset v) = length c"
    using len by (simp add: length_poke_u32 mmapped_size_offset_def sizeof_rb_def)
  show ?thesis
    using c h by (simp add: load_unfold l rb_of_bytes_poke sanity_checks_mmapped_size)
qed

lemma unat_off_t_small: "n < 2 ^ 63 \<Longrightarrow> unat (of_nat n :: off_t) = n"
  by (simp add: unat_of_nat)

lemma off_t_not_minus_one: "n < 2 ^ 63 \<Longrightarrow> (of_nat n :: off_t) \<noteq> - 1"
proof
  assume n: "n < 2 ^ 63" and "(of_nat n :: off_t) = - 1"
  then have "unat (of_nat n :: off_t) = unat (- 1 :: off_t)" by simp
  with n show False by (simp add: unat_off_t_small unsigned_minus_1_eq_mask mask_eq_exp_minus_1)
qed

lemma expected_size_of_nat: "expected_size h = of_nat (unat (nb_words h) * 4 + sizeof_rb)"
  by (simp add: expected_size_def)

text \<open>
  When \<^verbatim>\<open>ringbuf_load\<close> returns a handle: the file opens, its length is read and exceeds
  the header, the mapping succeeds, and the sanity checks (on the sizes as \<^verbatim>\<open>unsigned\<close>)
  pass.
\<close>

lemma load_returns_handle_iff:
  "(\<exists>m. fst (ringbuf_load e fname w) = Returned (Some m)) =
   (\<exists>c h. fs w fname = Some c \<and> \<not> open_denied e \<and> \<not> lseek_fails e \<and>
      (of_nat (length c) :: off_t) \<noteq> - 1 \<and> sizeof_rb < unat (of_nat (length c) :: off_t) \<and>
      \<not> mmap_fails e \<and> rb_of_bytes c = Some h \<and> sanity_checks h (of_nat (length c)))"
  by (auto simp: load_unfold split: option.splits)

text \<open>
  C1: what the code does on a file whose header fails the sanity checks. It releases the
  mapping and sets \<^verbatim>\<open>rb\<close> to \<^verbatim>\<open>NULL\<close>, but then runs line 130,
  \<^verbatim>\<open>rb->mmapped_size = file_length\<close>, through that \<^verbatim>\<open>NULL\<close> pointer: the call faults
  after the munmap, it does not return \<^verbatim>\<open>NULL\<close>, and the descriptor is never closed.
\<close>

theorem load_invalid_header_faults:
  assumes "fs w fname = Some c" and "rb_of_bytes c = Some h"
    and "sizeof_rb < length c" and "length c < 2 ^ 63"
    and "\<not> sanity_checks h (of_nat (length c))"
    and "\<not> open_denied e" and "\<not> lseek_fails e" and "\<not> mmap_fails e"
  shows "ringbuf_load e fname w = (Fault, w\<lparr>trace := trace w @ [Open, Lseek, Mmap, Munmap]\<rparr>)"
  using assms
  by (simp add: load_unfold unat_off_t_small off_t_not_minus_one)


theorem load_invalid_header_faults_witness:
  "ringbuf_load env_ok ''rb'' (one_file ''rb'' short_file) =
     (Fault, \<lparr>fs = (\<lambda>_. None)(''rb'' \<mapsto> short_file), mappings = [],
              trace = [Open, Lseek, Mmap, Munmap]\<rparr>) \<and>
   fst (ringbuf_load env_ok ''rb'' (one_file ''rb'' bad_counter_file)) = Fault"
proof -
  let ?h = "\<lparr>nb_words = 2, mmapped_size = 0, prod_head = 0, prod_tail = 0,
             cons_head = 0, cons_tail = 0 :: uint32_t\<rparr>"
  let ?h' = "\<lparr>nb_words = 2, mmapped_size = 0, prod_head = 0, prod_tail = 0,
              cons_head = 0, cons_tail = 2 :: uint32_t\<rparr>"
  have e: "\<not> open_denied env_ok" "\<not> lseek_fails env_ok" "\<not> mmap_fails env_ok"
    by (simp_all add: env_ok_def)
  have f: "fs (one_file ''rb'' short_file) ''rb'' = Some short_file"
    by (simp add: one_file_def)
  have d: "rb_of_bytes short_file = Some ?h"
    unfolding short_file_def by (rule rb_roundtrip)
  have l: "length short_file = 28"
    by (simp add: short_file_def sizeof_rb_bytes sizeof_rb_def)
  have s: "\<not> sanity_checks ?h (of_nat (length short_file))"
    by (simp add: l sanity_checks_def check_header_eq_def expected_size_def sizeof_rb_def)
  have f': "fs (one_file ''rb'' bad_counter_file) ''rb'' = Some bad_counter_file"
    by (simp add: one_file_def)
  have d': "rb_of_bytes bad_counter_file = Some ?h'"
    unfolding bad_counter_file_def by (rule rb_roundtrip)
  have l': "length bad_counter_file = 32"
    by (simp add: bad_counter_file_def sizeof_rb_bytes sizeof_rb_def)
  have s': "\<not> sanity_checks ?h' (of_nat (length bad_counter_file))"
    by (simp add: l' sanity_checks_def check_header_max_def)
  have 1: "ringbuf_load env_ok ''rb'' (one_file ''rb'' short_file) =
        (Fault, (one_file ''rb'' short_file)\<lparr>trace :=
           trace (one_file ''rb'' short_file) @ [Open, Lseek, Mmap, Munmap]\<rparr>)"
    by (rule load_invalid_header_faults [OF f d _ _ s e]) (simp_all add: l sizeof_rb_def)
  have 2: "ringbuf_load env_ok ''rb'' (one_file ''rb'' bad_counter_file) =
        (Fault, (one_file ''rb'' bad_counter_file)\<lparr>trace :=
           trace (one_file ''rb'' bad_counter_file) @ [Open, Lseek, Mmap, Munmap]\<rparr>)"
    by (rule load_invalid_header_faults [OF f' d' _ _ s' e]) (simp_all add: l' sizeof_rb_def)
  show ?thesis
    by (simp add: 1 2) (simp add: one_file_def)
qed

text \<open>
  C2: what the code does on a file that is \<open>2 ^ 32\<close> bytes longer than its header
  announces, with all counters in range. Both arguments of the size check are converted to
  \<^verbatim>\<open>unsigned\<close>, so the comparison is between the sizes modulo \<open>2 ^ 32\<close>: the check
  passes and a handle is returned, although the 64-bit file length differs from
  \<open>sizeof_rb + nb_words * 4\<close>.
\<close>

theorem load_size_check_truncates:
  assumes c: "fs w fname = Some c" and h: "rb_of_bytes c = Some h"
    and len: "length c = sizeof_rb + unat (nb_words h) * 4 + 2 ^ 32"
    and counters: "prod_head h < nb_words h" "prod_tail h < nb_words h"
                  "cons_head h < nb_words h" "cons_tail h < nb_words h"
    and env: "\<not> open_denied e" "\<not> lseek_fails e" "\<not> mmap_fails e"
  shows "fst (ringbuf_load e fname w) = Returned (Some \<lparr>m_file = fname, m_length = length c\<rparr>) \<and>
         length c \<noteq> sizeof_rb + unat (nb_words h) * 4"
proof -
  have "unat (nb_words h) < 2 ^ 32" using unsigned_less [of "nb_words h"] by simp
  with len have small: "length c < 2 ^ 63" by (simp add: sizeof_rb_def)
  have "(ucast (expected_size h) :: unsigned) = of_nat (unat (nb_words h) * 4 + sizeof_rb)"
    by (simp only: expected_size_of_nat ucast_off_t_of_nat)
  moreover have "(ucast (of_nat (length c) :: off_t) :: unsigned) =
                 of_nat (unat (nb_words h) * 4 + sizeof_rb) + of_nat (2 ^ 32)"
    by (simp only: ucast_off_t_of_nat len) simp
  moreover have "(of_nat (2 ^ 32) :: unsigned) = 0" by simp
  ultimately have "check_header_eq (ucast (expected_size h)) (ucast (of_nat (length c) :: off_t))"
    by (simp add: check_header_eq_def)
  with counters have "sanity_checks h (of_nat (length c))"
    by (simp add: sanity_checks_def check_header_max_def)
  then have sc: "\<not> \<not> sanity_checks h (of_nat (length c))" by simp
  have gt: "\<not> length c \<le> sizeof_rb" using len by simp
  have ne: "length c \<noteq> sizeof_rb + unat (nb_words h) * 4" using len by simp
  have u: "unat (of_nat (length c) :: off_t) = length c"
    using small by (rule unat_off_t_small)
  have m1: "(of_nat (length c) :: off_t) \<noteq> - 1"
    using small by (rule off_t_not_minus_one)
  have "ringbuf_load e fname w =
          (Returned (Some \<lparr>m_file = fname, m_length = length c\<rparr>),
           w\<lparr>fs := (fs w)(fname \<mapsto> poke_u32 c mmapped_size_offset
                                       (ucast (of_nat (length c) :: off_t))),
             mappings := \<lparr>m_file = fname, m_length = length c\<rparr> # mappings w,
             trace := trace w @ [Open, Lseek, Mmap, Close]\<rparr>)"
    unfolding load_unfold using c h env sc gt m1 by (simp add: u)
  with ne show ?thesis by simp
qed

theorem load_size_check_truncates_witness:
  "fst (ringbuf_load env_ok ''rb'' (one_file ''rb'' huge_file)) =
     Returned (Some \<lparr>m_file = ''rb'', m_length = 4294967324\<rparr>) \<and>
   length huge_file = 4294967324 \<and>
   Option.bind (rb_of_bytes huge_file) (Some \<circ> nb_words) = Some 1 \<and>
   sizeof_rb + 1 * 4 = 28"
proof -
  let ?h = "\<lparr>nb_words = 1, mmapped_size = 0, prod_head = 0, prod_tail = 0,
             cons_head = 0, cons_tail = 0 :: uint32_t\<rparr>"
  have e: "\<not> open_denied env_ok" "\<not> lseek_fails env_ok" "\<not> mmap_fails env_ok"
    by (simp_all add: env_ok_def)
  have f: "fs (one_file ''rb'' huge_file) ''rb'' = Some huge_file"
    by (simp add: one_file_def)
  have d: "rb_of_bytes huge_file = Some ?h"
    unfolding huge_file_def by (rule rb_roundtrip)
  have l: "length huge_file = 4294967324"
    by (simp add: huge_file_def sizeof_rb_bytes sizeof_rb_def)
  have l': "length huge_file = sizeof_rb + unat (nb_words ?h) * 4 + 2 ^ 32"
    by (simp add: l sizeof_rb_def)
  have "fst (ringbuf_load env_ok ''rb'' (one_file ''rb'' huge_file)) =
          Returned (Some \<lparr>m_file = ''rb'', m_length = length huge_file\<rparr>)"
    using load_size_check_truncates [OF f d l' _ _ _ _ e] by simp
  then show ?thesis
    by (simp add: l d sizeof_rb_def)
qed

text \<open>
  The frame of a successful \<^verbatim>\<open>ringbuf_load\<close>: the file keeps its length, its header is
  the old header with only \<^verbatim>\<open>mmapped_size\<close> replaced, by the length of the mapping
  converted to the 32-bit type of the field; the data area and every other file are
  unchanged. The sanity checks do not depend on the \<^verbatim>\<open>mmapped_size\<close> found in the file,
  and whatever value the file holds there the call returns the same handle.
\<close>

lemma load_frame:
  assumes ok: "ringbuf_load e fname w = (Returned (Some m), w')"
  shows "\<exists>c h c'. fs w fname = Some c \<and> rb_of_bytes c = Some h \<and> fs w' fname = Some c' \<and>
           length c' = length c \<and>
           rb_of_bytes c' = Some (h\<lparr>mmapped_size := of_nat (m_length m)\<rparr>) \<and>
           drop sizeof_rb c' = drop sizeof_rb c \<and>
           (\<forall>p. p \<noteq> fname \<longrightarrow> fs w' p = fs w p) \<and>
           (\<forall>v. sanity_checks (h\<lparr>mmapped_size := v\<rparr>) (of_nat (length c)) =
                sanity_checks h (of_nat (length c))) \<and>
           (\<forall>v. fst (ringbuf_load e fname
                       (w\<lparr>fs := (fs w)(fname \<mapsto> poke_u32 c mmapped_size_offset v)\<rparr>)) =
                Returned (Some m))"
proof -
  from ok obtain c h where c: "fs w fname = Some c" and h: "rb_of_bytes c = Some h"
    and m: "m = \<lparr>m_file = fname, m_length = unat (of_nat (length c) :: off_t)\<rparr>"
    and w': "w' = w\<lparr>fs := (fs w)(fname \<mapsto> poke_u32 c mmapped_size_offset
                                         (ucast (of_nat (length c) :: off_t))),
                 mappings := m # mappings w,
                 trace := trace w @ [Open, Lseek, Mmap, Close]\<rparr>"
    by (rule load_success_cases)
  let ?v = "ucast (of_nat (length c) :: off_t) :: uint32_t"
  let ?c' = "poke_u32 c mmapped_size_offset ?v"
  from h have len: "sizeof_rb \<le> length c"
    by (simp add: rb_of_bytes_def split: if_splits)
  have v: "?v = of_nat (m_length m)"
    by (simp add: m)
  have 1: "fs w' fname = Some ?c'" by (simp add: w')
  have 2: "length ?c' = length c"
    using len by (simp add: length_poke_u32 mmapped_size_offset_def sizeof_rb_def)
  have 3: "rb_of_bytes ?c' = Some (h\<lparr>mmapped_size := of_nat (m_length m)\<rparr>)"
    using rb_of_bytes_poke [OF h, of ?v] by (simp only: v)
  have 4: "drop sizeof_rb ?c' = drop sizeof_rb c"
    using len by (rule drop_header_poke)
  have 5: "\<forall>p. p \<noteq> fname \<longrightarrow> fs w' p = fs w p" by (simp add: w')
  have 6: "\<forall>v. fst (ringbuf_load e fname
                       (w\<lparr>fs := (fs w)(fname \<mapsto> poke_u32 c mmapped_size_offset v)\<rparr>)) =
                Returned (Some m)"
    using load_outcome_ignores_mmapped_size [OF c len, of e] ok by simp
  from c h 1 2 3 4 5 6 show ?thesis
    by (simp add: sanity_checks_mmapped_size)
qed

lemma load_frame_example:
  "fst (ringbuf_load env_ok ''rb'' (one_file ''rb'' (fresh_file env_ok 2))) =
     Returned (Some \<lparr>m_file = ''rb'', m_length = 32\<rparr>) \<and>
   (\<exists>c'. fs (snd (ringbuf_load env_ok ''rb'' (one_file ''rb'' (fresh_file env_ok 2)))) ''rb'' = Some c' \<and>
      rb_of_bytes c' = Some \<lparr>nb_words = 2, mmapped_size = 32, prod_head = 0, prod_tail = 0,
                             cons_head = 0, cons_tail = 0\<rparr>)"
proof -
  let ?w = "one_file ''rb'' (fresh_file env_ok 2)"
  have f: "fs ?w ''rb'' = Some (fresh_file env_ok 2)"
    by (simp add: one_file_def)
  have d: "rb_of_bytes (fresh_file env_ok 2) = Some (create_header env_ok 2)"
    unfolding fresh_file_def by (rule rb_roundtrip)
  have l: "length (fresh_file env_ok 2) = 32"
    by (simp add: fresh_file_def sizeof_rb_bytes sizeof_rb_def)
  have s: "sanity_checks (create_header env_ok 2) 32"
    by (simp add: sanity_checks_def check_header_eq_def check_header_max_def expected_size_def
        create_header_def sizeof_rb_def)
  have r: "ringbuf_load env_ok ''rb'' ?w =
        (Returned (Some \<lparr>m_file = ''rb'', m_length = 32\<rparr>),
         snd (ringbuf_load env_ok ''rb'' ?w))"
    using f d l s by (simp add: load_unfold env_ok_def sizeof_rb_def)
  from load_frame [OF r] f d
  obtain c' where "fs (snd (ringbuf_load env_ok ''rb'' ?w)) ''rb'' = Some c'"
    and "rb_of_bytes c' = Some ((create_header env_ok 2)\<lparr>mmapped_size := of_nat 32\<rparr>)"
    by auto
  then have "\<exists>c'. fs (snd (ringbuf_load env_ok ''rb'' ?w)) ''rb'' = Some c' \<and>
      rb_of_bytes c' = Some \<lparr>nb_words = 2, mmapped_size = 32, prod_head = 0, prod_tail = 0,
                             cons_head = 0, cons_tail = 0\<rparr>"
    by (simp add: create_header_def)
  moreover from r have "fst (ringbuf_load env_ok ''rb'' ?w) =
      Returned (Some \<lparr>m_file = ''rb'', m_length = 32\<rparr>)"
    by (metis fst_conv)
  ultimately show ?thesis by blast
qed



section \<open>Properties of the enqueue and dequeue protocol\<close>

subsection \<open>Free and used accounting\<close>

lemma ring_mod_identity:
  fixes p c n :: int
  assumes "0 \<le> p" "p < n" "0 \<le> c" "c < n"
  shows "(p - c) mod n + (c - p - 1) mod n + 1 = n"
proof (cases "c \<le> p")
  case True
  with assms have a: "(p - c) mod n = p - c" by simp
  have "(c - p - 1) mod n = (c - p - 1 + n) mod n" by simp
  also have "\<dots> = c - p - 1 + n" using True assms by (intro mod_pos_pos_trivial) auto
  finally show ?thesis using a by simp
next
  case False
  with assms have a: "(c - p - 1) mod n = c - p - 1" by simp
  have "(p - c) mod n = (p - c + n) mod n" by simp
  also have "\<dots> = p - c + n" using False assms by (intro mod_pos_pos_trivial) auto
  finally show ?thesis using a by simp
qed

text \<open>
  C5: in a quiescent header state (both tails equal to their heads, all four counters
  below \<open>nb_words\<close>, \<open>nb_words\<close> at least 1), \<open>nb_entries + nb_free + 1 = nb_words\<close>.
\<close>

theorem quiescent_accounting:
  assumes "prod_tail rb = prod_head rb" and "cons_tail rb = cons_head rb"
    and "prod_head rb < nb_words rb" and "prod_tail rb < nb_words rb"
    and "cons_head rb < nb_words rb" and "cons_tail rb < nb_words rb"
    and "1 \<le> nb_words rb"
  shows "ringbuf_nb_entries rb (prod_tail rb) (cons_head rb) +
         ringbuf_nb_free rb (prod_head rb) (cons_tail rb) + 1 = uint (nb_words rb)"
proof -
  have "uint (prod_head rb) < uint (nb_words rb)" "uint (cons_head rb) < uint (nb_words rb)"
    using assms by (simp_all add: word_less_def)
  then show ?thesis
    unfolding ringbuf_nb_entries_def ringbuf_nb_free_def assms(1,2)
    by (intro ring_mod_identity) simp_all
qed

theorem quiescent_accounting_witness:
  "ringbuf_nb_entries \<lparr>nb_words = 8, mmapped_size = 0, prod_head = 2, prod_tail = 2,
      cons_head = 5, cons_tail = 5\<rparr> 2 5 = 5 \<and>
   ringbuf_nb_free \<lparr>nb_words = 8, mmapped_size = 0, prod_head = 2, prod_tail = 2,
      cons_head = 5, cons_tail = 5\<rparr> 2 5 = 2"
proof -
  let ?rb = "\<lparr>nb_words = 8, mmapped_size = 0, prod_head = 2, prod_tail = 2,
      cons_head = 5, cons_tail = 5 :: uint32_t\<rparr>"
  have e: "ringbuf_nb_entries ?rb 2 5 = 5"
    by (simp add: ringbuf_nb_entries_def)
  from quiescent_accounting [of ?rb] have "ringbuf_nb_entries ?rb 2 5 + ringbuf_nb_free ?rb 2 5 + 1 = 8"
    by simp
  with e show ?thesis by simp
qed

subsection \<open>Enqueuing on a buffer nobody reads from\<close>

lemma await_tail_same: "await_tail t t = Some ()"
  by (subst await_tail.simps) simp

lemma store_words_append:
  "length vs \<le> length rest \<Longrightarrow>
   store_words (pre @ rest) (length pre) vs = pre @ vs @ drop (length vs) rest"
proof (induction vs arbitrary: pre rest)
  case Nil
  then show ?case by simp
next
  case (Cons v vs)
  then obtain r rs where rest: "rest = r # rs" by (cases rest) auto
  with Cons.prems have l: "length vs \<le> length rs" by simp
  have "store_words ((pre @ [v]) @ rs) (length (pre @ [v])) vs = (pre @ [v]) @ vs @ drop (length vs) rs"
    using l by (rule Cons.IH)
  then show ?case by (simp add: rest)
qed

lemma unat_u32_of_nat: "n < 2 ^ 32 \<Longrightarrow> unat (of_nat n :: uint32_t) = n"
  by (simp add: unat_of_nat)

lemma unat_lt_u32: "unat (w :: uint32_t) < 2 ^ 32"
  using unsigned_less [of w] by simp

lemma uint_u32_of_nat: "n < 2 ^ 32 \<Longrightarrow> uint (of_nat n :: uint32_t) = int n"
  by (simp only: uint_nat unat_u32_of_nat)

lemma lt_unat_int: "P < unat (N :: uint32_t) \<Longrightarrow> int P < uint N"
  by (simp only: uint_nat of_nat_less_iff)

lemma nb_free_from_zero:
  assumes "P < unat N" and "nb_words h = N" and "prod_head h = of_nat P" and "cons_tail h = 0"
  shows "ringbuf_nb_free h (prod_head h) (cons_tail h) = uint N - int P - 1"
proof -
  have p: "P < 2 ^ 32" using assms(1) unat_lt_u32 [of N] by simp
  have lt: "int P < uint N" using assms(1) by (rule lt_unat_int)
  have "(- int P - 1) mod uint N = (- int P - 1 + uint N) mod uint N"
    by simp
  also have "\<dots> = - int P - 1 + uint N"
    using lt by (intro mod_pos_pos_trivial) auto
  finally show ?thesis
    by (simp add: ringbuf_nb_free_def assms uint_u32_of_nat [OF p])
qed

lemma enqueue_step:
  assumes n: "nb_words (hdr b) = N"
    and ph: "prod_head (hdr b) = of_nat (length pre)" and pt: "prod_tail (hdr b) = of_nat (length pre)"
    and ct: "cons_tail (hdr b) = 0"
    and d: "data b = pre @ rest" and len: "length (data b) = unat N"
    and room: "length pre + length m + 1 < unat N"
  shows "ringbuf_enqueue b m =
           Some (Inr (), b\<lparr>hdr := (hdr b)\<lparr>prod_head := of_nat (length pre + length m + 1),
                                          prod_tail := of_nat (length pre + length m + 1)\<rparr>,
                           data := pre @ (of_nat (length m) # m) @ drop (length m + 1) rest\<rparr>)"
proof -
  have p: "length pre < unat N" using room by simp
  have p32: "length pre < 2 ^ 32" using p unat_lt_u32 [of N] by simp
  have up: "unat (prod_head (hdr b)) = length pre"
    by (simp add: ph unat_u32_of_nat [OF p32])
  have free: "ringbuf_nb_free (hdr b) (prod_head (hdr b)) (cons_tail (hdr b)) =
              uint N - int (length pre) - 1"
    using p n ph ct by (rule nb_free_from_zero)
  have c1: "\<not> uint N - int (length pre) - 1 < int (length m) + 1"
    using lt_unat_int [OF room] by simp
  have c2: "length pre + length m + 1 \<le> unat N"
    using room by simp
  have lr: "length (of_nat (length m) # m) \<le> length rest"
    using d len room by simp
  have st: "store_words (data b) (length pre) (of_nat (length m) # m) =
            pre @ (of_nat (length m) # m) @ drop (length m + 1) rest"
    unfolding d using store_words_append [OF lr, of pre] by simp
  have md: "(length pre + length m + 1) mod unat N = length pre + length m + 1"
    using room by simp
  have "ringbuf_enqueue b m =
          enqueue_publish b (length pre + length m + 1)
            (pre @ (of_nat (length m) # m) @ drop (length m + 1) rest)"
    unfolding ringbuf_enqueue_def Let_def free up n
    using c1 c2 by (simp only: if_False if_True md st)
  then show ?thesis
    by (simp add: enqueue_publish_def ph pt await_tail_same)
qed

lemma frames_Cons: "frames (m # ms) = (of_nat (length m) # m) @ frames ms"
  by (simp add: frames_def)

lemma footprint_Cons: "footprint (m # ms) = length m + 1 + footprint ms"
  by (simp add: footprint_def)

lemma length_frames: "length (frames ms) = footprint ms"
  by (induction ms) (simp_all add: frames_def footprint_def)

lemma enqueue_all_from_zero:
  assumes "nb_words (hdr b) = N"
    and "prod_head (hdr b) = of_nat (length pre)" and "prod_tail (hdr b) = of_nat (length pre)"
    and "cons_tail (hdr b) = 0"
    and "data b = pre @ rest" and "length (data b) = unat N"
    and "length pre + footprint ms < unat N"
  shows "enqueue_all b ms =
           Some (Inr (), b\<lparr>hdr := (hdr b)\<lparr>prod_head := of_nat (length pre + footprint ms),
                                          prod_tail := of_nat (length pre + footprint ms)\<rparr>,
                           data := pre @ frames ms @ drop (footprint ms) rest\<rparr>)"
  using assms
proof (induction ms arbitrary: b pre rest)
  case Nil
  then show ?case by (simp add: frames_def footprint_def)
next
  case (Cons m ms)
  let ?b1 = "b\<lparr>hdr := (hdr b)\<lparr>prod_head := of_nat (length pre + length m + 1),
                                 prod_tail := of_nat (length pre + length m + 1)\<rparr>,
                  data := pre @ (of_nat (length m) # m) @ drop (length m + 1) rest\<rparr>"
  let ?pre1 = "pre @ (of_nat (length m) # m)"
  have room: "length pre + length m + 1 < unat N"
    using Cons.prems(7) by (simp add: footprint_Cons)
  have step: "ringbuf_enqueue b m = Some (Inr (), ?b1)"
    using Cons.prems(1-6) room by (rule enqueue_step)
  have l1: "length ?pre1 = length pre + length m + 1" by simp
  have "enqueue_all ?b1 ms =
          Some (Inr (), ?b1\<lparr>hdr := (hdr ?b1)\<lparr>prod_head := of_nat (length ?pre1 + footprint ms),
                                          prod_tail := of_nat (length ?pre1 + footprint ms)\<rparr>,
                           data := ?pre1 @ frames ms @ drop (footprint ms) (drop (length m + 1) rest)\<rparr>)"
  proof (rule Cons.IH)
    show "nb_words (hdr ?b1) = N" using Cons.prems(1) by simp
    show "prod_head (hdr ?b1) = of_nat (length ?pre1)" by (simp only: l1) simp
    show "prod_tail (hdr ?b1) = of_nat (length ?pre1)" by (simp only: l1) simp
    show "cons_tail (hdr ?b1) = 0" using Cons.prems(4) by simp
    show "data ?b1 = ?pre1 @ drop (length m + 1) rest" by simp
    show "length (data ?b1) = unat N" using Cons.prems(5,6) room by simp
    show "length ?pre1 + footprint ms < unat N"
      using Cons.prems(7) by (simp add: footprint_Cons)
  qed
  then show ?case
    by (simp add: step frames_Cons footprint_Cons add.commute add.left_commute)
qed


subsection \<open>Dequeuing a run of frames\<close>

lemma u32_of_nat_inject:
  assumes "a < 2 ^ 32" and "b < 2 ^ 32" and "(of_nat a :: uint32_t) = of_nat b"
  shows "a = b"
proof -
  from assms(3) have "unat (of_nat a :: uint32_t) = unat (of_nat b :: uint32_t)" by simp
  with assms(1,2) show ?thesis by (simp only: unat_u32_of_nat)
qed

lemma length_word_not_sentinel:
  assumes "l + 1 < 2 ^ 32"
  shows "(of_nat l :: uint32_t) \<noteq> wrap_sentinel"
proof
  assume "(of_nat l :: uint32_t) = wrap_sentinel"
  then have "unat (of_nat l :: uint32_t) = unat (- 1 :: uint32_t)"
    by (simp add: wrap_sentinel_def)
  moreover have "l < 2 ^ 32" using assms by simp
  ultimately have "l = unat (- 1 :: uint32_t)" by (simp only: unat_u32_of_nat)
  with assms show False by (simp add: unsigned_minus_1_eq_mask mask_eq_exp_minus_1)
qed

lemma dequeue_step:
  assumes n: "nb_words (hdr b) = N"
    and ch: "cons_head (hdr b) = of_nat (length pre)" and ct: "cons_tail (hdr b) = of_nat (length pre)"
    and pt: "prod_tail (hdr b) = of_nat P"
    and d: "data b = pre @ (of_nat (length m) # m) @ post"
    and used: "length pre + length m + 1 \<le> P" and p: "P < unat N"
  shows "ringbuf_dequeue b =
           Some (Inr m, b\<lparr>hdr := (hdr b)\<lparr>cons_head := of_nat (length pre + length m + 1),
                                         cons_tail := of_nat (length pre + length m + 1)\<rparr>\<rparr>)"
proof -
  have p32: "P < 2 ^ 32" using p unat_lt_u32 [of N] by simp
  have c32: "length pre < 2 ^ 32" and l32: "length m + 1 < 2 ^ 32" and l32': "length m < 2 ^ 32"
    using used p32 by simp_all
  have ne: "cons_head (hdr b) \<noteq> prod_tail (hdr b)"
  proof
    assume "cons_head (hdr b) = prod_tail (hdr b)"
    then have "(of_nat (length pre) :: uint32_t) = of_nat P" by (simp add: ch pt)
    with c32 p32 have "length pre = P" by (rule u32_of_nat_inject)
    with used show False by simp
  qed
  have uc: "unat (cons_head (hdr b)) = length pre"
    by (simp add: ch unat_u32_of_nat [OF c32])
  have w: "word_at (data b) (length pre) = Some (of_nat (length m))"
    by (simp add: word_at_def d)
  have ns: "(of_nat (length m) :: uint32_t) \<noteq> wrap_sentinel"
    using l32 by (rule length_word_not_sentinel)
  have ul: "unat (of_nat (length m) :: uint32_t) = length m"
    using l32' by (rule unat_u32_of_nat)
  have md: "(length pre + length m + 1) mod unat N = length pre + length m + 1"
    using used p by simp
  have pl: "take (length m) (drop (length pre + 1) (data b)) = m"
    by (simp add: d)
  have "ringbuf_dequeue b = dequeue_publish b (length pre + length m + 1) m"
    unfolding ringbuf_dequeue_def Let_def uc n
    using ne ns by (simp only: if_False w option.case ul md pl)
  then show ?thesis
    by (simp add: dequeue_publish_def ch ct await_tail_same)
qed

lemma dequeue_n_frames:
  assumes "nb_words (hdr b) = N"
    and "cons_head (hdr b) = of_nat (length pre)" and "cons_tail (hdr b) = of_nat (length pre)"
    and "prod_tail (hdr b) = of_nat P"
    and "data b = pre @ frames ms @ post"
    and "length pre + footprint ms \<le> P" and "P < unat N"
  shows "dequeue_n (length ms) b =
           Some (Inr ms, b\<lparr>hdr := (hdr b)\<lparr>cons_head := of_nat (length pre + footprint ms),
                                          cons_tail := of_nat (length pre + footprint ms)\<rparr>\<rparr>)"
  using assms
proof (induction ms arbitrary: b pre)
  case Nil
  then show ?case by (simp add: footprint_def)
next
  case (Cons m ms)
  let ?b1 = "b\<lparr>hdr := (hdr b)\<lparr>cons_head := of_nat (length pre + length m + 1),
                                 cons_tail := of_nat (length pre + length m + 1)\<rparr>\<rparr>"
  let ?pre1 = "pre @ (of_nat (length m) # m)"
  have l1: "length ?pre1 = length pre + length m + 1" by simp
  have used: "length pre + length m + 1 \<le> P"
    using Cons.prems(6) by (simp add: footprint_Cons)
  have d: "data b = pre @ (of_nat (length m) # m) @ (frames ms @ post)"
    using Cons.prems(5) by (simp add: frames_Cons)
  have step: "ringbuf_dequeue b = Some (Inr m, ?b1)"
    using Cons.prems(1-4) d used Cons.prems(7) by (rule dequeue_step)
  have "dequeue_n (length ms) ?b1 =
          Some (Inr ms, ?b1\<lparr>hdr := (hdr ?b1)\<lparr>cons_head := of_nat (length ?pre1 + footprint ms),
                                            cons_tail := of_nat (length ?pre1 + footprint ms)\<rparr>\<rparr>)"
  proof (rule Cons.IH)
    show "nb_words (hdr ?b1) = N" using Cons.prems(1) by simp
    show "cons_head (hdr ?b1) = of_nat (length ?pre1)" by (simp only: l1) simp
    show "cons_tail (hdr ?b1) = of_nat (length ?pre1)" by (simp only: l1) simp
    show "prod_tail (hdr ?b1) = of_nat P" using Cons.prems(4) by simp
    show "data ?b1 = ?pre1 @ frames ms @ post" using d by simp
    show "length ?pre1 + footprint ms \<le> P"
      using Cons.prems(6) by (simp add: footprint_Cons)
    show "P < unat N" by (rule Cons.prems(7))
  qed
  then show ?case
    by (simp add: step footprint_Cons add.commute add.left_commute)
qed

lemma enqueue_all_fresh:
  assumes "footprint ms < unat N"
  shows "enqueue_all (fresh_rbuf N sz) ms =
           Some (Inr (), \<lparr>hdr = \<lparr>nb_words = N, mmapped_size = sz,
                                  prod_head = of_nat (footprint ms), prod_tail = of_nat (footprint ms),
                                  cons_head = 0, cons_tail = 0\<rparr>,
                          data = frames ms @ replicate (unat N - footprint ms) 0\<rparr>)"
proof -
  have "enqueue_all (fresh_rbuf N sz) ms =
          Some (Inr (), (fresh_rbuf N sz)\<lparr>hdr := (hdr (fresh_rbuf N sz))
                             \<lparr>prod_head := of_nat (length ([] :: uint32_t list) + footprint ms),
                              prod_tail := of_nat (length ([] :: uint32_t list) + footprint ms)\<rparr>,
                           data := [] @ frames ms @ drop (footprint ms) (replicate (unat N) 0)\<rparr>)"
    by (rule enqueue_all_from_zero [where N = N]) (use assms in \<open>simp_all add: fresh_rbuf_def\<close>)
  then show ?thesis by (simp add: fresh_rbuf_def)
qed

lemma enqueue_no_free:
  assumes "ringbuf_nb_free (hdr b) (prod_head (hdr b)) (cons_tail (hdr b)) = 0"
  shows "ringbuf_enqueue b msg = Some (Inl NOT_ENOUGH_SPACE, b)"
  by (simp add: ringbuf_enqueue_def Let_def assms)

text \<open>
  C4: for messages of 1 to \<open>nb_words - 2\<close> words each whose lengths plus one add up to at
  most \<open>nb_words - 1\<close>, enqueuing them all on a freshly created buffer succeeds, and
  dequeuing as many times then returns the same messages, word for word, in the same
  order.
\<close>

theorem round_trip:
  assumes each: "\<forall>m \<in> set ms. 1 \<le> length m \<and> length m \<le> unat N - 2"
    and total: "footprint ms \<le> unat N - 1"
  shows "\<exists>b b'. enqueue_all (fresh_rbuf N sz) ms = Some (Inr (), b) \<and>
                 dequeue_n (length ms) b = Some (Inr ms, b')"
proof (cases "ms = []")
  case True
  then show ?thesis by simp
next
  case False
  then have "0 < footprint ms" by (cases ms) (simp_all add: footprint_Cons)
  with total have lt: "footprint ms < unat N" by simp
  let ?b = "\<lparr>hdr = \<lparr>nb_words = N, mmapped_size = sz,
                     prod_head = of_nat (footprint ms), prod_tail = of_nat (footprint ms),
                     cons_head = 0, cons_tail = 0\<rparr>,
             data = frames ms @ replicate (unat N - footprint ms) 0\<rparr>"
  have enq: "enqueue_all (fresh_rbuf N sz) ms = Some (Inr (), ?b)"
    using lt by (rule enqueue_all_fresh)
  have "dequeue_n (length ms) ?b =
          Some (Inr ms, ?b\<lparr>hdr := (hdr ?b)\<lparr>cons_head := of_nat (length ([] :: uint32_t list) + footprint ms),
                                          cons_tail := of_nat (length ([] :: uint32_t list) + footprint ms)\<rparr>\<rparr>)"
    by (rule dequeue_n_frames [where N = N and P = "footprint ms"
          and post = "replicate (unat N - footprint ms) 0"]) (use lt in simp_all)
  with enq show ?thesis by blast
qed

theorem round_trip_witness:
  "\<exists>b b'. enqueue_all (fresh_rbuf 8 0) [[1, 2, 3], [4]] = Some (Inr (), b) \<and>
           dequeue_n 2 b = Some (Inr [[1, 2, 3], [4]], b')"
proof -
  have each: "\<forall>m \<in> set [[1, 2, 3], [4 :: uint32_t]]. 1 \<le> length m \<and> length m \<le> unat (8 :: uint32_t) - 2"
    by simp
  have total: "footprint [[1, 2, 3], [4 :: uint32_t]] \<le> unat (8 :: uint32_t) - 1"
    by (simp add: footprint_def)
  have len: "length [[1, 2, 3], [4 :: uint32_t]] = 2" by simp
  from round_trip [OF each total, of 0] show ?thesis
    by (simp only: len)
qed

text \<open>
  A freshly created buffer on which messages of total footprint \<open>nb_words - 1\<close> were
  enqueued, nothing being consumed, has no free word and rejects every further enqueue.
\<close>

lemma full_after_enqueue_all:
  assumes total: "footprint ms + 1 = unat N"
  shows "\<exists>b. enqueue_all (fresh_rbuf N sz) ms = Some (Inr (), b) \<and>
             ringbuf_nb_free (hdr b) (prod_head (hdr b)) (cons_tail (hdr b)) = 0 \<and>
             (\<forall>msg. 1 \<le> length msg \<longrightarrow> ringbuf_enqueue b msg = Some (Inl NOT_ENOUGH_SPACE, b))"
proof -
  from total have lt: "footprint ms < unat N" by simp
  let ?b = "\<lparr>hdr = \<lparr>nb_words = N, mmapped_size = sz,
                     prod_head = of_nat (footprint ms), prod_tail = of_nat (footprint ms),
                     cons_head = 0, cons_tail = 0\<rparr>,
             data = frames ms @ replicate (unat N - footprint ms) 0\<rparr>"
  have enq: "enqueue_all (fresh_rbuf N sz) ms = Some (Inr (), ?b)"
    using lt by (rule enqueue_all_fresh)
  have "ringbuf_nb_free (hdr ?b) (prod_head (hdr ?b)) (cons_tail (hdr ?b)) =
          uint N - int (footprint ms) - 1"
    using lt by (rule nb_free_from_zero) simp_all
  also have "\<dots> = 0"
  proof -
    have "int (footprint ms + 1) = int (unat N)" using total by simp
    then have "int (footprint ms) + 1 = uint N" by (simp only: uint_nat)
    then show ?thesis by simp
  qed
  finally have free: "ringbuf_nb_free (hdr ?b) (prod_head (hdr ?b)) (cons_tail (hdr ?b)) = 0" .
  then have "ringbuf_enqueue ?b msg = Some (Inl NOT_ENOUGH_SPACE, ?b)" for msg
    by (rule enqueue_no_free)
  then have "\<forall>msg. 1 \<le> length msg \<longrightarrow> ringbuf_enqueue ?b msg = Some (Inl NOT_ENOUGH_SPACE, ?b)"
    by blast
  with enq free show ?thesis by blast
qed


text \<open>
  If \<open>nb_words - 1\<close> words are in use, the free count is zero, wherever the two sides
  stand in the ring.
\<close>

lemma full_means_no_free:
  fixes p c n :: int
  assumes "(p - c) mod n = n - 1"
  shows "(c - p - 1) mod n = 0"
proof -
  have "(c - p - 1) mod n = (- (p - c) - 1) mod n" by simp
  also have "\<dots> = ((- (p - c)) mod n - 1) mod n" by (simp add: mod_diff_left_eq)
  also have "\<dots> = ((- ((p - c) mod n)) mod n - 1) mod n" by (simp add: mod_minus_eq)
  also have "\<dots> = (- (n - 1) - 1) mod n" by (simp add: assms mod_diff_left_eq)
  also have "\<dots> = 0" by simp
  finally show ?thesis .
qed

text \<open>
  C6: one word of the data area is never used. In every quiescent state in which the
  buffer holds \<open>nb_words - 1\<close> words, wherever the producer and the consumer stand, no
  word is free, and every further enqueue of a payload of at least one word fails with
  \<^verbatim>\<open>NOT_ENOUGH_SPACE\<close> and leaves the region as it was; so on a buffer of capacity 8
  after one message of 6 words, and on one whose counters stand at 2 and 3.
\<close>

theorem full_buffer_rejects:
  assumes "prod_tail (hdr b) = prod_head (hdr b)" and "cons_tail (hdr b) = cons_head (hdr b)"
    and "ringbuf_nb_entries (hdr b) (prod_tail (hdr b)) (cons_head (hdr b)) =
         uint (nb_words (hdr b)) - 1"
  shows "ringbuf_nb_free (hdr b) (prod_head (hdr b)) (cons_tail (hdr b)) = 0 \<and>
         (\<forall>msg. 1 \<le> length msg \<longrightarrow> ringbuf_enqueue b msg = Some (Inl NOT_ENOUGH_SPACE, b))"
proof -
  have free: "ringbuf_nb_free (hdr b) (prod_head (hdr b)) (cons_tail (hdr b)) = 0"
    using assms(3) unfolding ringbuf_nb_entries_def ringbuf_nb_free_def assms(1,2)
    by (rule full_means_no_free)
  then have "ringbuf_enqueue b msg = Some (Inl NOT_ENOUGH_SPACE, b)" for msg
    by (rule enqueue_no_free)
  with free show ?thesis by blast
qed

theorem full_buffer_rejects_witness:
  "(\<exists>b. ringbuf_enqueue (fresh_rbuf 8 0) [7, 7, 7, 7, 7, 7] = Some (Inr (), b) \<and>
        ringbuf_enqueue b [9] = Some (Inl NOT_ENOUGH_SPACE, b)) \<and>
   ringbuf_enqueue
     \<lparr>hdr = \<lparr>nb_words = 8, mmapped_size = 0, prod_head = 2, prod_tail = 2,
             cons_head = 3, cons_tail = 3\<rparr>, data = replicate 8 0\<rparr> [9] =
   Some (Inl NOT_ENOUGH_SPACE,
     \<lparr>hdr = \<lparr>nb_words = 8, mmapped_size = 0, prod_head = 2, prod_tail = 2,
             cons_head = 3, cons_tail = 3\<rparr>, data = replicate 8 0\<rparr>)"
proof -
  let ?ms = "[[7, 7, 7, 7, 7, 7 :: uint32_t]]"
  let ?b = "\<lparr>hdr = \<lparr>nb_words = 8, mmapped_size = 0,
                     prod_head = of_nat (footprint ?ms), prod_tail = of_nat (footprint ?ms),
                     cons_head = 0, cons_tail = 0 :: uint32_t\<rparr>,
             data = frames ?ms @ replicate (unat (8 :: uint32_t) - footprint ?ms) 0\<rparr>"
  let ?c = "\<lparr>hdr = \<lparr>nb_words = 8, mmapped_size = 0, prod_head = 2, prod_tail = 2,
             cons_head = 3, cons_tail = 3 :: uint32_t\<rparr>, data = replicate 8 (0 :: uint32_t)\<rparr>"
  have "footprint ?ms < unat (8 :: uint32_t)" by (simp add: footprint_def)
  then have "enqueue_all (fresh_rbuf 8 0) ?ms = Some (Inr (), ?b)"
    by (rule enqueue_all_fresh)
  then have e: "ringbuf_enqueue (fresh_rbuf 8 0) [7, 7, 7, 7, 7, 7] = Some (Inr (), ?b)"
    by (auto split: option.splits sum.splits prod.splits)
  have fb: "ringbuf_nb_entries (hdr ?b) (prod_tail (hdr ?b)) (cons_head (hdr ?b)) =
            uint (nb_words (hdr ?b)) - 1"
    by (simp add: ringbuf_nb_entries_def footprint_def)
  have fc: "ringbuf_nb_entries (hdr ?c) (prod_tail (hdr ?c)) (cons_head (hdr ?c)) =
            uint (nb_words (hdr ?c)) - 1"
    by (simp add: ringbuf_nb_entries_def)
  from full_buffer_rejects [of ?b, OF _ _ fb]
  have 1: "ringbuf_enqueue ?b [9] = Some (Inl NOT_ENOUGH_SPACE, ?b)" by simp
  from full_buffer_rejects [of ?c, OF _ _ fc]
  have 2: "ringbuf_enqueue ?c [9] = Some (Inl NOT_ENOUGH_SPACE, ?c)" by simp
  from e 1 2 show ?thesis by blast
qed

end
